theory Spec2Isabelle
  imports Main "HOL-Library.AList" "HOL-Library.Multiset"
begin

section \<open>Data shared by the two processors\<close>

text \<open>
  Go strings are byte sequences: \<open>len\<close> counts bytes and \<open>s[:n]\<close> slices bytes. They are
  modelled as \<open>string\<close> (a list of 8-bit \<open>char\<close>s), so \<open>length\<close> is Go's \<open>len\<close> and
  \<open>take\<close> is Go's slice.

  A JSON object whose members are all strings is an association list in member order.
  A Pub/Sub payload is either such an object or something \<open>json.Unmarshal\<close> rejects
  (malformed text, or a member of the wrong type for its field).
\<close>

type_synonym json_object = "(string \<times> string) list"

datatype payload = NotJSON | Object json_object

text \<open>The CloudEvent handed to a function: \<open>e.DataAs(&msg)\<close> fails or yields the payload.\<close>

datatype event = NoData | Data payload

text \<open>
  One constructor per \<open>fmt.Errorf\<close> of the two programs; a wrapping \<open>%v\<close> keeps the wrapped
  error as an argument. A Go \<open>error\<close> result is an \<open>error option\<close> (\<open>None\<close> is \<open>nil\<close>), a
  pair \<open>(value, error)\<close> is a sum.
\<close>

datatype error =
    EventDataAs
  | FailedParsingJSON
  | FailedParsingFeed
  | FailedProcessingItems error
  | FirestoreClientError
  | FailedGettingItems
  | PubsubNewClient
  | JsonMarshal
  | DidNotPublish nat nat
  | FailedSendingNotification error
  | FailedConverting
  | HttpRequestError
  | ResponseStatus nat string
  | FailedUpdatingRecord error
  | FailedWriting

text \<open>
  The record store is a Firestore collection: document identifier to document, a document
  being its fields. Every call that leaves the process is appended to a log, so that what a
  function did to the outside is part of its result.
\<close>

type_synonym document = "string \<rightharpoonup> string"

datatype effect =
    BatchGet "string list"
  | Publish json_object bool
  | Post string json_object "(nat \<times> string) option"
  | Upsert string json_object

record world =
  store :: "string \<rightharpoonup> document"
  log :: "effect list"

definition emit :: "effect \<Rightarrow> world \<Rightarrow> world" where
  "emit x w = w\<lparr>log := log w @ [x]\<rparr>"

subsection \<open>Strings in JSON\<close>

text \<open>
  \<open>encoding/json\<close> writes and reads strings as well-formed UTF-8: it decodes the bytes with
  \<open>utf8.DecodeRune\<close>, and every byte at which that gives \<open>RuneError\<close> with width 1 becomes
  U+FFFD, the bytes \<open>EF BF BD\<close>. The decoder takes the width of an encoding from its first
  byte, wants that many bytes, the second in a range that depends on the first and the
  others continuation bytes.
\<close>

definition cont :: "char \<Rightarrow> bool" where
  "cont c = (0x80 \<le> (of_char c :: nat) \<and> (of_char c :: nat) \<le> 0xBF)"

definition leadWidth :: "nat \<Rightarrow> nat" where
  "leadWidth x =
     (if x < 0x80 then 1 else if x < 0xC2 then 0 else if x < 0xE0 then 2
      else if x < 0xF0 then 3 else if x < 0xF5 then 4 else 0)"

definition secondLo :: "nat \<Rightarrow> nat" where
  "secondLo x = (if x = 0xE0 then 0xA0 else if x = 0xF0 then 0x90 else 0x80)"

definition secondHi :: "nat \<Rightarrow> nat" where
  "secondHi x = (if x = 0xED then 0x9F else if x = 0xF4 then 0x8F else 0xBF)"

definition tailOk :: "nat \<Rightarrow> string \<Rightarrow> bool" where
  "tailOk x bs =
     (case bs of
        [] \<Rightarrow> True
      | b1 # others \<Rightarrow>
          secondLo x \<le> (of_char b1 :: nat) \<and> (of_char b1 :: nat) \<le> secondHi x \<and> list_all cont others)"

text \<open>The width of the well-formed encoding a string starts with, 0 if it starts with none.\<close>

definition runeWidth :: "string \<Rightarrow> nat" where
  "runeWidth s =
     (case s of
        [] \<Rightarrow> 0
      | b0 # rest \<Rightarrow>
          let x = (of_char b0 :: nat); n = leadWidth x
          in if 0 < n \<and> n \<le> Suc (length rest) \<and> tailOk x (take (n - 1) rest) then n else 0)"

function jsonString :: "string \<Rightarrow> string" where
  "jsonString s =
     (if s = [] then []
      else if runeWidth s = 0 then [CHR 0xEF, CHR 0xBF, CHR 0xBD] @ jsonString (tl s)
      else take (runeWidth s) s @ jsonString (drop (runeWidth s) s))"
  by pat_completeness auto
termination
  by (relation "measure length") auto

declare jsonString.simps [simp del]

text \<open>
  Key lookup of \<open>json.Unmarshal\<close> into a string field: the last member with the field's key
  wins and its value is read as a JSON string; a missing key leaves the field at its zero
  value, the empty string.
\<close>

definition member :: "json_object \<Rightarrow> string \<Rightarrow> string" where
  "member obj k = (case map_of (rev obj) k of None \<Rightarrow> [] | Some v \<Rightarrow> jsonString v)"

section \<open>Channel Processor (process-channel)\<close>

text \<open>The fields of \<open>gofeed.Item\<close> that the program reads.\<close>

record gofeed_Item =
  GUID :: string
  item_Title :: string
  item_Content :: string
  item_Link :: string
  item_Updated :: string

record ChannelConfig =
  cfg_FeedURL :: string
  cfg_NotifyURL :: string

text \<open>The \<open>FeedItem\<close> struct of the Channel Processor, the message it publishes.\<close>

record FeedItem_ch =
  ch_NotifyURL :: string
  ch_ID :: string
  ch_Updated :: string
  ch_Link :: string
  ch_Title :: string
  ch_Content :: string

text \<open>
  What the outside decides during one invocation: whether the clients can be created,
  what the feed parser returns for a URL, whether the store answers a batch read, whether the
  \<open>i\<close>-th published message is acknowledged, and the order in which Go's runtime visits the
  entries of a map (\<open>rangeOrder\<close>, indices into the entries; see \<open>mapRange\<close>).
\<close>

record chan_env =
  parseURL :: "string \<Rightarrow> gofeed_Item list option"
  firestoreClient :: bool
  getAllOk :: "string list \<Rightarrow> bool"
  pubsubClient :: bool
  publishOk :: "nat \<Rightarrow> json_object \<Rightarrow> bool"
  rangeOrder :: "nat list"

definition unmarshal_ChannelConfig :: "payload \<Rightarrow> ChannelConfig option" where
  "unmarshal_ChannelConfig p =
     (case p of
        NotJSON \<Rightarrow> None
      | Object obj \<Rightarrow>
          Some \<lparr>cfg_FeedURL = member obj ''url'', cfg_NotifyURL = member obj ''notify''\<rparr>)"

text \<open>\<open>json.Marshal\<close> of the published struct: one member per field, in field order.\<close>

definition marshal_FeedItem_ch :: "FeedItem_ch \<Rightarrow> error + json_object" where
  "marshal_FeedItem_ch f =
     Inr [(''notify'', jsonString (ch_NotifyURL f)), (''id'', jsonString (ch_ID f)),
          (''updated'', jsonString (ch_Updated f)), (''link'', jsonString (ch_Link f)),
          (''title'', jsonString (ch_Title f)), (''content'', jsonString (ch_Content f))]"

text \<open>
  \<open>for _, v := range itemMap\<close>: Go leaves the order unspecified. The entries are visited in
  the order \<open>rangeOrder\<close> lists their indices (indices out of range and repetitions are
  dropped), then the entries it does not list; every order is some \<open>rangeOrder\<close>.
\<close>

definition mapRange :: "nat list \<Rightarrow> 'a list \<Rightarrow> 'a list" where
  "mapRange order al =
     (let idx = remdups (filter (\<lambda>i. i < length al) order)
      in map (nth al) idx @ map (nth al) (filter (\<lambda>i. i \<notin> set idx) [0..<length al]))"

text \<open>
  The first loop of \<open>removeOldItems\<close>: \<open>itemMap[item.GUID] = item\<close> for each item, on a map
  that starts empty (an assignment to a key already there replaces its value).
\<close>

definition buildItemMap :: "gofeed_Item list \<Rightarrow> (string \<times> gofeed_Item) list" where
  "buildItemMap items = foldl (\<lambda>m item. AList.update (GUID item) item m) [] items"

text \<open>
  Modelled from the spec: the batch existence check of the Record Store Adapter, which the
  program calls as Firestore's \<open>client.GetAll\<close> and which is not in the source. Section 4.1:
  for each identifier requested it tells whether a record exists; it must handle empty
  input without error; when the store is unavailable it surfaces an error. The answer is
  one snapshot per requested reference, in request order, with the document if there is
  one; \<open>None\<close> is the error.
\<close>

definition GetAll :: "chan_env \<Rightarrow> world \<Rightarrow> string list \<Rightarrow> (string \<times> document option) list option" where
  "GetAll env w ids =
     (if ids = [] then Some []
      else if getAllOk env ids then Some (map (\<lambda>i. (i, store w i)) ids)
      else None)"

text \<open>
  The second loop: a snapshot has data exactly when the document exists, and then its
  entry is deleted from the map.
\<close>

definition dropExisting ::
  "(string \<times> document option) list \<Rightarrow> (string \<times> gofeed_Item) list \<Rightarrow> (string \<times> gofeed_Item) list" where
  "dropExisting docs itemMap =
     foldl (\<lambda>m snap. if snd snap \<noteq> None then AList.delete (fst snap) m else m) itemMap docs"

definition removeOldItems ::
  "chan_env \<Rightarrow> world \<Rightarrow> gofeed_Item list \<Rightarrow> (error + gofeed_Item list) \<times> world" where
  "removeOldItems env w items =
     (if \<not> firestoreClient env then (Inl FirestoreClientError, w)
      else
        let ids = map GUID items;
            itemMap = buildItemMap items;
            w' = emit (BatchGet ids) w
        in case GetAll env w ids of
             None \<Rightarrow> (Inl FailedGettingItems, w')
           | Some docs \<Rightarrow>
               (Inr (map snd (mapRange (rangeOrder env) (dropExisting docs itemMap))), w'))"

text \<open>
  The loop of \<open>publishItem\<close>. Each message is published in turn; its goroutine waits for the
  acknowledgement and adds one to \<open>totalErrors\<close> when it fails. The additions are atomic and
  the function waits for all of them, so the count after \<open>wg.Wait()\<close> is the number of
  failed messages whatever the interleaving; the model counts them in publication order.
  \<open>totalErrors\<close> is a \<open>uint64\<close> that is at most \<open>len(items)\<close>, so it never wraps and is a
  \<open>nat\<close> here. A marshalling error returns at once, from inside the loop.
\<close>

fun publishLoop ::
  "chan_env \<Rightarrow> string \<Rightarrow> gofeed_Item list \<Rightarrow> nat \<Rightarrow> nat \<Rightarrow> world \<Rightarrow> error option \<times> nat \<times> world" where
  "publishLoop env notifyURL [] i totalErrors w = (None, totalErrors, w)"
| "publishLoop env notifyURL (item # rest) i totalErrors w =
     (let feed = \<lparr>ch_NotifyURL = notifyURL, ch_ID = GUID item, ch_Updated = item_Updated item,
                  ch_Link = item_Link item, ch_Title = item_Title item,
                  ch_Content = item_Content item\<rparr>
      in case marshal_FeedItem_ch feed of
           Inl err \<Rightarrow> (Some JsonMarshal, totalErrors, w)
         | Inr itemJson \<Rightarrow>
             let ok = publishOk env i itemJson
             in publishLoop env notifyURL rest (Suc i)
                  (if ok then totalErrors else totalErrors + 1)
                  (emit (Publish itemJson ok) w))"

definition publishItem ::
  "chan_env \<Rightarrow> world \<Rightarrow> string \<Rightarrow> gofeed_Item list \<Rightarrow> error option \<times> world" where
  "publishItem env w notifyURL items =
     (if \<not> pubsubClient env then (Some PubsubNewClient, w)
      else
        case publishLoop env notifyURL items 0 0 w of
          (Some err, totalErrors, w') \<Rightarrow> (Some err, w')
        | (None, totalErrors, w') \<Rightarrow>
            if totalErrors > 0 then (Some (DidNotPublish totalErrors (length items)), w')
            else (None, w'))"

text \<open>
  \<open>processChannel\<close> calls \<open>publishItem\<close> as a statement: the error it returns is dropped and
  the function returns \<open>nil\<close>.
\<close>

definition processChannel :: "chan_env \<Rightarrow> world \<Rightarrow> event \<Rightarrow> error option \<times> world" where
  "processChannel env w e =
     (case e of
        NoData \<Rightarrow> (Some EventDataAs, w)
      | Data p \<Rightarrow>
          (case unmarshal_ChannelConfig p of
             None \<Rightarrow> (Some FailedParsingJSON, w)
           | Some channelConfig \<Rightarrow>
               (case parseURL env (cfg_FeedURL channelConfig) of
                  None \<Rightarrow> (Some FailedParsingFeed, w)
                | Some feedItems \<Rightarrow>
                    (case removeOldItems env w feedItems of
                       (Inl err, w1) \<Rightarrow> (Some (FailedProcessingItems err), w1)
                     | (Inr items, w1) \<Rightarrow>
                         (None, snd (publishItem env w1 (cfg_NotifyURL channelConfig) items))))))"

section \<open>Item Processor (process-item)\<close>

text \<open>
  The source holds two revisions of this program. They differ only in \<open>htmlToMarkdown\<close>:
  one registers a rule for anchors with the converter, the other does not. The revision
  with the rule is the one modelled; \<open>processItem\<close>, \<open>notify\<close> and \<open>save\<close> are the same in
  both.
\<close>

record FeedItem =
  NotifyURL :: string
  Feed :: string
  ID :: string
  Updated :: string
  Link :: string
  Title :: string
  Content :: string

definition unmarshal_FeedItem :: "payload \<Rightarrow> FeedItem option" where
  "unmarshal_FeedItem p =
     (case p of
        NotJSON \<Rightarrow> None
      | Object obj \<Rightarrow>
          Some \<lparr>NotifyURL = member obj ''notify'', Feed = member obj ''feed'',
                ID = member obj ''id'', Updated = member obj ''updated'',
                Link = member obj ''link'', Title = member obj ''title'',
                Content = member obj ''content''\<rparr>)"

subsection \<open>\<open>strings.TrimSpace\<close>\<close>

text \<open>
  \<open>strings.TrimSpace\<close> removes leading and trailing white space as Unicode defines it. On
  the bytes of a string these are the UTF-8 encodings of U+0009..U+000D, U+0020, U+0085,
  U+00A0, U+1680, U+2000..U+200A, U+2028, U+2029, U+202F, U+205F and U+3000.
\<close>

definition spaceRunes :: "string list" where
  "spaceRunes =
     [ [CHR 0x09], [CHR 0x0A], [CHR 0x0B], [CHR 0x0C], [CHR 0x0D], [CHR 0x20],
      [CHR 0xC2, CHR 0x85], [CHR 0xC2, CHR 0xA0], [CHR 0xE1, CHR 0x9A, CHR 0x80],
      [CHR 0xE2, CHR 0x80, CHR 0x80], [CHR 0xE2, CHR 0x80, CHR 0x81],
      [CHR 0xE2, CHR 0x80, CHR 0x82], [CHR 0xE2, CHR 0x80, CHR 0x83],
      [CHR 0xE2, CHR 0x80, CHR 0x84], [CHR 0xE2, CHR 0x80, CHR 0x85],
      [CHR 0xE2, CHR 0x80, CHR 0x86], [CHR 0xE2, CHR 0x80, CHR 0x87],
      [CHR 0xE2, CHR 0x80, CHR 0x88], [CHR 0xE2, CHR 0x80, CHR 0x89],
      [CHR 0xE2, CHR 0x80, CHR 0x8A], [CHR 0xE2, CHR 0x80, CHR 0xA8],
      [CHR 0xE2, CHR 0x80, CHR 0xA9], [CHR 0xE2, CHR 0x80, CHR 0xAF],
      [CHR 0xE2, CHR 0x81, CHR 0x9F], [CHR 0xE3, CHR 0x80, CHR 0x80] ]"

text \<open>The width in bytes of the white-space code point a string starts with, 0 if none.\<close>

definition spaceWidth :: "string list \<Rightarrow> string \<Rightarrow> nat" where
  "spaceWidth runes s =
     (case find (\<lambda>r. r \<noteq> [] \<and> take (length r) s = r) runes of
        None \<Rightarrow> 0
      | Some r \<Rightarrow> length r)"

function trimFront :: "string list \<Rightarrow> string \<Rightarrow> string" where
  "trimFront runes s =
     (if s \<noteq> [] \<and> 0 < spaceWidth runes s then trimFront runes (drop (spaceWidth runes s) s)
      else s)"
  by pat_completeness auto
termination
  by (relation "measure (\<lambda>(runes, s). length s)") auto

definition TrimSpace :: "string \<Rightarrow> string" where
  "TrimSpace s = rev (trimFront (map rev spaceRunes) (rev (trimFront spaceRunes s)))"

subsection \<open>The anchor rule of \<open>htmlToMarkdown\<close>\<close>

text \<open>
  A \<open>goquery.Selection\<close> on one element: its attributes in document order, and the rest of
  the document (\<open>node\<close>), which only the conversion library reads.
\<close>

record 'n Selection =
  attrs :: "(string \<times> string) list"
  node :: 'n

definition Attr :: "'n Selection \<Rightarrow> string \<Rightarrow> string option" where
  "Attr selec name = map_of (attrs selec) name"

definition AttrOr :: "'n Selection \<Rightarrow> string \<Rightarrow> string \<Rightarrow> string" where
  "AttrOr selec name defaultValue =
     (case Attr selec name of Some v \<Rightarrow> v | None \<Rightarrow> defaultValue)"

record AdvancedResult =
  Header :: string
  Markdown :: string
  Footer :: string

text \<open>
  A parsed content body: text, and elements with their tag, attributes, place in the
  document (what a selection on them carries besides the attributes) and children.
\<close>

datatype 'n html = Text string | Element string "(string \<times> string) list" 'n "'n html list"

text \<open>
  The conversion library (html-to-markdown) is not part of the program. What it decides
  is a parameter: the two helpers the anchor rule calls, the parser, and its default rule
  set (built with \<open>StrongDelimiter: "*"\<close>) for text and for the elements other than \<open>a\<close>.
\<close>

record 'n mdlib =
  EscapeMultiLine :: "string \<Rightarrow> string"
  AddSpaceIfNessesary :: "'n Selection \<Rightarrow> string \<Rightarrow> string"
  parseHtml :: "string \<Rightarrow> 'n html list option"
  textRule :: "string \<Rightarrow> string"
  tagRule :: "string \<Rightarrow> string \<Rightarrow> 'n Selection \<Rightarrow> string"

text \<open>
  Modelled from the spec: the converter of the library, \<open>ConvertString\<close>, which is not in the
  source. Sections 4.3 (step 1) and 9: a generic walker over the content body with a rule
  hook. Every construct is mapped by its rule, the children of an element first, and the
  results of siblings follow each other; an anchor is mapped by the rule registered for
  \<open>a\<close>, which gets the converted inner content and the element, and an anchor the rule
  declines (\<open>skip\<close>) is suppressed entirely: nothing is emitted for it and its siblings are
  still processed. The other constructs go to the default rule set.
\<close>

fun convertNode ::
  "'n mdlib \<Rightarrow> (string \<Rightarrow> 'n Selection \<Rightarrow> AdvancedResult \<times> bool) \<Rightarrow> 'n html \<Rightarrow> string" where
  "convertNode lib rule (Text t) = textRule lib t"
| "convertNode lib rule (Element tag atts n children) =
     (let content = concat (map (convertNode lib rule) children);
          selec = \<lparr>attrs = atts, node = n\<rparr>
      in if tag = ''a''
         then (case rule content selec of (res, skip) \<Rightarrow> if skip then [] else Markdown res)
         else tagRule lib tag content selec)"

text \<open>Modelled from the spec: the walker on a sequence of sibling constructs.\<close>

definition convertNodes ::
  "'n mdlib \<Rightarrow> (string \<Rightarrow> 'n Selection \<Rightarrow> AdvancedResult \<times> bool) \<Rightarrow> 'n html list \<Rightarrow> string" where
  "convertNodes lib rule nodes = concat (map (convertNode lib rule) nodes)"

text \<open>
  Modelled from the spec: the constructs of a content body. Section 3 allows the body to
  be empty; a body without a character holds no construct. Any other body is split by the
  parser, whose failure (\<open>None\<close>) is the conversion error of section 7.
\<close>

definition document :: "'n mdlib \<Rightarrow> string \<Rightarrow> 'n html list option" where
  "document lib html = (if html = [] then Some [] else parseHtml lib html)"

text \<open>
  Modelled from the spec: \<open>ConvertString\<close> itself, the walk with the given rule over the
  constructs of the body.
\<close>

definition ConvertString ::
  "'n mdlib \<Rightarrow> (string \<Rightarrow> 'n Selection \<Rightarrow> AdvancedResult \<times> bool) \<Rightarrow> string \<Rightarrow> string option" where
  "ConvertString lib rule html = map_option (convertNodes lib rule) (document lib html)"

definition replaceNewlines :: "string \<Rightarrow> string" where
  "replaceNewlines t = map (\<lambda>c. if c = CHR 0x0A then CHR 0x20 else c) t"

definition escapeQuotes :: "string \<Rightarrow> string" where
  "escapeQuotes t = concat (map (\<lambda>c. if c = CHR 0x22 then [CHR 0x5C, CHR 0x22] else [c]) t)"

definition noResult :: AdvancedResult where
  "noResult = \<lparr>Header = [], Markdown = [], Footer = []\<rparr>"

text \<open>
  The \<open>AdvancedReplacement\<close> closure: the converted inner content and the element in, the
  result and the \<open>skip\<close> flag out.
\<close>

definition anchorRule :: "'n mdlib \<Rightarrow> string \<Rightarrow> 'n Selection \<Rightarrow> AdvancedResult \<times> bool" where
  "anchorRule lib content selec =
     (case Attr selec ''href'' of
        None \<Rightarrow> (noResult\<lparr>Markdown := content\<rparr>, False)
      | Some href \<Rightarrow>
          if TrimSpace href = [] \<or> TrimSpace href = ''#''
          then (noResult\<lparr>Markdown := content\<rparr>, False)
          else
            let content1 = EscapeMultiLine lib content;
                title = (case Attr selec ''title'' of
                           Some t \<Rightarrow> [CHR 0x20, CHR 0x22] @ escapeQuotes (replaceNewlines t) @ [CHR 0x22]
                         | None \<Rightarrow> []);
                content2 = (if TrimSpace content1 = []
                            then AttrOr selec ''title'' (AttrOr selec ''aria-label'' [])
                            else content1)
            in if content2 = [] then (noResult, True)
               else (noResult\<lparr>Markdown :=
                        AddSpaceIfNessesary lib selec
                          (''<'' @ href @ title @ ''|'' @ content2 @ ''>'')\<rparr>, False))"

definition htmlToMarkdown :: "'n mdlib \<Rightarrow> string \<Rightarrow> string option" where
  "htmlToMarkdown lib html = ConvertString lib (anchorRule lib) html"

subsection \<open>Delivery and persistence\<close>

text \<open>
  What the outside decides for one item: the conversion library, the answer of the webhook
  to a POST (\<open>None\<close> is a transport error, otherwise status code and body), whether the
  Firestore client can be created and whether the write succeeds.
\<close>

record 'n item_env =
  md :: "'n mdlib"
  httpPost :: "string \<Rightarrow> json_object \<Rightarrow> (nat \<times> string) option"
  storeClient :: bool
  setOk :: "string \<Rightarrow> json_object \<Rightarrow> bool"

text \<open>Lines 84 to 89 of \<open>notify\<close>: the header, the converted body, the cut at 4000 bytes.\<close>

definition headerText :: "FeedItem \<Rightarrow> string" where
  "headerText item = Feed item @ '' <'' @ Link item @ ''|'' @ Title item @ ''>'' @ [CHR 0x0A, CHR 0x0A]"

definition messageText :: "FeedItem \<Rightarrow> string \<Rightarrow> string" where
  "messageText item body =
     (let text = headerText item @ body
      in if length text > 4000 then take 4000 text else text)"

text \<open>\<open>json.Marshal\<close> of the map with the one key \<open>text\<close>.\<close>

definition marshal_msg :: "string \<Rightarrow> error + json_object" where
  "marshal_msg text = Inr [(''text'', jsonString text)]"

definition notify :: "'n item_env \<Rightarrow> world \<Rightarrow> FeedItem \<Rightarrow> error option \<times> world" where
  "notify env w item =
     (case htmlToMarkdown (md env) (Content item) of
        None \<Rightarrow> (Some FailedConverting, w)
      | Some body \<Rightarrow>
          (case marshal_msg (messageText item body) of
             Inl err \<Rightarrow> (Some JsonMarshal, w)
           | Inr jsonBody \<Rightarrow>
               let resp = httpPost env (NotifyURL item) jsonBody;
                   w' = emit (Post (NotifyURL item) jsonBody resp) w
               in case resp of
                    None \<Rightarrow> (Some HttpRequestError, w')
                  | Some (statusCode, b) \<Rightarrow>
                      if statusCode \<noteq> 200 then (Some (ResponseStatus statusCode b), w')
                      else (None, w')))"

text \<open>
  \<open>Set\<close> with \<open>firestore.MergeAll\<close>: the fields written replace those of the same name, the
  other fields of an existing document stay.
\<close>

definition recordFields :: "FeedItem \<Rightarrow> json_object" where
  "recordFields item =
     [(''id'', ID item), (''lastUpdate'', Updated item), (''title'', Title item),
      (''content'', Content item), (''link'', Link item)]"

definition mergeAll :: "document option \<Rightarrow> json_object \<Rightarrow> document" where
  "mergeAll old written = (case old of None \<Rightarrow> Map.empty | Some d \<Rightarrow> d) ++ map_of written"

definition save :: "'n item_env \<Rightarrow> world \<Rightarrow> FeedItem \<Rightarrow> error option \<times> world" where
  "save env w item =
     (if \<not> storeClient env then (Some FirestoreClientError, w)
      else if \<not> setOk env (ID item) (recordFields item) then (Some FailedWriting, w)
      else (None, emit (Upsert (ID item) (recordFields item))
                    (w\<lparr>store := (store w)(ID item \<mapsto> mergeAll (store w (ID item)) (recordFields item))\<rparr>)))"

definition processItem :: "'n item_env \<Rightarrow> world \<Rightarrow> event \<Rightarrow> error option \<times> world" where
  "processItem env w e =
     (case e of
        NoData \<Rightarrow> (Some EventDataAs, w)
      | Data p \<Rightarrow>
          (case unmarshal_FeedItem p of
             None \<Rightarrow> (Some FailedParsingJSON, w)
           | Some item \<Rightarrow>
               (case notify env w item of
                  (Some err, w1) \<Rightarrow> (Some (FailedSendingNotification err), w1)
                | (None, w1) \<Rightarrow>
                    (case save env w1 item of
                       (Some err, w2) \<Rightarrow> (Some (FailedUpdatingRecord err), w2)
                     | (None, w2) \<Rightarrow> (None, w2)))))"

section \<open>Observing a run\<close>

text \<open>Predicates on the effects of the log, and what a run is compared with.\<close>

fun isUpsert :: "effect \<Rightarrow> bool" where
  "isUpsert (Upsert i written) = True"
| "isUpsert x = False"

fun isBatchGet :: "effect \<Rightarrow> bool" where
  "isBatchGet (BatchGet ids) = True"
| "isBatchGet x = False"

fun isPublish :: "effect \<Rightarrow> bool" where
  "isPublish (Publish obj ok) = True"
| "isPublish x = False"

text \<open>A POST that the webhook answered with status 200.\<close>

fun delivered :: "effect \<Rightarrow> bool" where
  "delivered (Post u j (Some (statusCode, b))) = (statusCode = 200)"
| "delivered x = False"

text \<open>The message published for an entry, and the messages of a fan-out with their outcomes.\<close>

definition itemJson :: "string \<Rightarrow> gofeed_Item \<Rightarrow> json_object" where
  "itemJson notifyURL item =
     [(''notify'', jsonString notifyURL), (''id'', jsonString (GUID item)),
      (''updated'', jsonString (item_Updated item)), (''link'', jsonString (item_Link item)),
      (''title'', jsonString (item_Title item)), (''content'', jsonString (item_Content item))]"

fun acks :: "chan_env \<Rightarrow> string \<Rightarrow> gofeed_Item list \<Rightarrow> nat \<Rightarrow> (json_object \<times> bool) list" where
  "acks env notifyURL [] i = []"
| "acks env notifyURL (item # rest) i =
     (itemJson notifyURL item, publishOk env i (itemJson notifyURL item))
       # acks env notifyURL rest (Suc i)"

text \<open>The messages of the publications in a log, in order.\<close>

fun publishedOf :: "effect \<Rightarrow> json_object list" where
  "publishedOf (Publish obj ok) = [obj]"
| "publishedOf x = []"

definition published :: "effect list \<Rightarrow> json_object list" where
  "published es = concat (map publishedOf es)"

text \<open>
  Delivery succeeded: the content converts, the POST gets through and the answer has status
  200.
\<close>

definition delivered200 :: "'n item_env \<Rightarrow> FeedItem \<Rightarrow> bool" where
  "delivered200 env item =
     (case htmlToMarkdown (md env) (Content item) of
        None \<Rightarrow> False
      | Some body \<Rightarrow>
          (case httpPost env (NotifyURL item) [(''text'', jsonString (messageText item body))] of
             None \<Rightarrow> False
           | Some (statusCode, b) \<Rightarrow> statusCode = 200))"

text \<open>Well-formed UTF-8: what the JSON encoder leaves as it is.\<close>

definition validUTF8 :: "string \<Rightarrow> bool" where
  "validUTF8 s = (jsonString s = s)"

text \<open>
  The characters of a text, as opposed to its bytes: the code points of well-formed UTF-8,
  that is the bytes that are not continuation bytes (\<open>10xxxxxx\<close>).
\<close>

definition utf8_chars :: "string \<Rightarrow> nat" where
  "utf8_chars s = length (filter (\<lambda>c. (of_char c :: nat) div 64 \<noteq> 2) s)"

section \<open>Sample inputs\<close>

definition emptyWorld :: world where
  "emptyWorld = \<lparr>store = Map.empty, log = []\<rparr>"

definition entry1 :: gofeed_Item where
  "entry1 = \<lparr>GUID = ''guid-1'', item_Title = ''Release notes'', item_Content = ''<p>New</p>'',
             item_Link = ''https://example.com/1'', item_Updated = ''2023-01-01''\<rparr>"

text \<open>Every collaborator works; the feed has the one entry \<open>entry1\<close>.\<close>

definition okEnv :: chan_env where
  "okEnv = \<lparr>parseURL = (\<lambda>url. Some [entry1]), firestoreClient = True, getAllOk = (\<lambda>ids. True),
            pubsubClient = True, publishOk = (\<lambda>i msg. True), rangeOrder = []\<rparr>"

definition channelEvent :: event where
  "channelEvent =
     Data (Object [(''url'', ''https://example.com/feed''), (''notify'', ''https://chat.example/hook'')])"

text \<open>
  A conversion library that reads the document \<open>doc\<close> from the body \<open>src\<close> and takes every
  other body as text without markup. Its rules leave text as it is and give an element its
  converted content; its \<open>EscapeMultiLine\<close> trims the content and puts a backslash before
  each newline.
\<close>

definition sampleLib :: "string \<Rightarrow> unit html list \<Rightarrow> unit mdlib" where
  "sampleLib src doc =
     \<lparr>EscapeMultiLine =
        (\<lambda>content. concat (map (\<lambda>c. if c = CHR 0x0A then [CHR 0x5C, CHR 0x0A] else [c])
                             (TrimSpace content))),
      AddSpaceIfNessesary = (\<lambda>selec markdown. markdown),
      parseHtml = (\<lambda>html. if html = src then Some doc else Some [Text html]),
      textRule = (\<lambda>t. t),
      tagRule = (\<lambda>tag content selec. content)\<rparr>"

definition plainLib :: "unit mdlib" where
  "plainLib = sampleLib [] []"

text \<open>The anchors of the examples: \<open><a href="">click</a>\<close> and an anchor without text.\<close>

definition clickSrc :: string where
  "clickSrc = ''<a href='' @ [CHR 0x22, CHR 0x22] @ ''>click</a>''"

definition clickDoc :: "unit html list" where
  "clickDoc = [Element ''a'' [(''href'', [])] () [Text ''click''] ]"



text \<open>A webhook that answers every POST with the given status; the store works.\<close>

definition hookEnv :: "nat \<Rightarrow> unit item_env" where
  "hookEnv statusCode =
     \<lparr>md = plainLib, httpPost = (\<lambda>url body. Some (statusCode, ''ok'')),
      storeClient = True, setOk = (\<lambda>i written. True)\<rparr>"

definition item1 :: FeedItem where
  "item1 = \<lparr>NotifyURL = ''https://chat.example/hook'', Feed = ''Blog'', ID = ''guid-1'',
            Updated = ''2023-01-01'', Link = ''https://example.com/1'', Title = ''Release notes'',
            Content = ''New''\<rparr>"

definition payload1 :: payload where
  "payload1 =
     Object [(''notify'', ''https://chat.example/hook''), (''feed'', ''Blog''), (''id'', ''guid-1''),
             (''updated'', ''2023-01-01''), (''link'', ''https://example.com/1''),
             (''title'', ''Release notes''), (''content'', ''New'')]"

section \<open>Strings in JSON: well-formed text is kept\<close>

lemma jsonString_Nil: "jsonString [] = []"
  by (subst jsonString.simps) simp

lemma runeWidth_le: "runeWidth s \<le> length s"
  by (cases s) (simp_all add: runeWidth_def Let_def)

lemma runeWidth_take: "0 < runeWidth s \<Longrightarrow> runeWidth (take (runeWidth s) s @ t) = runeWidth s"
proof (cases s)
  case Nil
  assume "0 < runeWidth s"
  then show ?thesis using Nil by (simp add: runeWidth_def)
next
  case (Cons b0 rest)
  assume p: "0 < runeWidth s"
  let ?x = "of_char b0 :: nat"
  let ?n = "leadWidth ?x"
  have c: "0 < ?n \<and> ?n \<le> Suc (length rest) \<and> tailOk ?x (take (?n - 1) rest)"
    using p Cons by (simp add: runeWidth_def Let_def split: if_splits)
  then have w: "runeWidth s = ?n" using Cons by (simp add: runeWidth_def Let_def)
  have t: "take ?n s @ t = b0 # (take (?n - 1) rest @ t)"
    using c Cons by (simp add: take_Cons')
  have l: "length (take (?n - 1) rest) = ?n - 1" using c by (auto simp: min_def)
  have "runeWidth (b0 # (take (?n - 1) rest @ t)) = ?n"
    using c l by (simp add: runeWidth_def Let_def)
  then show ?thesis using w t by simp
qed

lemma runeWidth_ascii: "(of_char c :: nat) < 0x80 \<Longrightarrow> runeWidth (c # s) = 1"
  by (simp add: runeWidth_def leadWidth_def tailOk_def)

lemma jsonString_ascii_Cons: "(of_char c :: nat) < 0x80 \<Longrightarrow> jsonString (c # s) = c # jsonString s"
  by (subst jsonString.simps) (simp add: runeWidth_ascii)

lemma jsonString_ascii_append:
  "list_all (\<lambda>c. (of_char c :: nat) < 0x80) s \<Longrightarrow> jsonString (s @ t) = s @ jsonString t"
  by (induction s) (simp_all add: jsonString_ascii_Cons)

lemma jsonString_ascii: "list_all (\<lambda>c. (of_char c :: nat) < 0x80) s \<Longrightarrow> jsonString s = s"
  using jsonString_ascii_append[of s "[]"] by (simp add: jsonString_Nil)

lemma runeWidth_replacement: "runeWidth (CHR 0xEF # CHR 0xBF # CHR 0xBD # s) = 3"
  by (simp add: runeWidth_def leadWidth_def tailOk_def secondLo_def secondHi_def cont_def)

lemma jsonString_valid_append:
  "validUTF8 a \<Longrightarrow> jsonString (a @ b) = a @ jsonString b"
proof (induction a rule: length_induct)
  case (1 a)
  show ?case
  proof (cases "a = []")
    case True
    then show ?thesis by simp
  next
    case False
    have ja: "jsonString a = a" using "1.prems" by (simp add: validUTF8_def)
    show ?thesis
    proof (cases "runeWidth a = 0")
      case True
      have "jsonString a = [CHR 0xEF, CHR 0xBF, CHR 0xBD] @ jsonString (tl a)"
        using False True by (subst jsonString.simps) simp
      then have "a = CHR 0xEF # CHR 0xBF # CHR 0xBD # jsonString (tl a)" using ja by simp
      then have "runeWidth a = 3" using runeWidth_replacement by metis
      then show ?thesis using True by simp
    next
      case nz: False
      let ?n = "runeWidth a"
      have le: "?n \<le> length a" by (rule runeWidth_le)
      have "jsonString a = take ?n a @ jsonString (drop ?n a)"
        using False nz by (subst jsonString.simps) simp
      then have "take ?n a @ jsonString (drop ?n a) = a" using ja by simp
      then have "take ?n a @ jsonString (drop ?n a) = take ?n a @ drop ?n a"
        by (simp only: append_take_drop_id)
      then have "jsonString (drop ?n a) = drop ?n a" by (simp only: same_append_eq)
      then have vd: "validUTF8 (drop ?n a)" by (simp only: validUTF8_def)
      have "length (drop ?n a) < length a" using False nz by simp
      then have ih: "jsonString (drop ?n a @ b) = drop ?n a @ jsonString b"
        using "1.IH" vd by blast
      have p: "0 < ?n" using nz by simp
      have "take ?n a @ drop ?n a @ b = a @ b"
        by (simp only: append_assoc[symmetric] append_take_drop_id)
      then have w: "runeWidth (a @ b) = ?n"
        using runeWidth_take[OF p, of "drop ?n a @ b"] by (simp only:)
      have nb: "a @ b \<noteq> []" using False by simp
      have "jsonString (a @ b) = take ?n (a @ b) @ jsonString (drop ?n (a @ b))"
        using False p w by (subst jsonString.simps) simp
      also have "\<dots> = take ?n a @ jsonString (drop ?n a @ b)" using le by simp
      also have "\<dots> = take ?n a @ drop ?n a @ jsonString b" using ih by simp
      finally show ?thesis by simp
    qed
  qed
qed

lemma validUTF8_Nil: "validUTF8 []"
  by (simp add: validUTF8_def jsonString_Nil)

lemma validUTF8_append: "validUTF8 a \<Longrightarrow> validUTF8 b \<Longrightarrow> validUTF8 (a @ b)"
  using jsonString_valid_append[of a b] by (simp add: validUTF8_def)

lemma validUTF8_ascii: "list_all (\<lambda>c. (of_char c :: nat) < 0x80) s \<Longrightarrow> validUTF8 s"
  by (simp add: validUTF8_def jsonString_ascii)

lemma validUTF8_rune: "0 < runeWidth s \<Longrightarrow> validUTF8 (take (runeWidth s) s)"
proof -
  assume p: "0 < runeWidth s"
  let ?n = "runeWidth s"
  have le: "?n \<le> length s" by (rule runeWidth_le)
  have w: "runeWidth (take ?n s) = ?n" using runeWidth_take[OF p, of "[]"] by simp
  have ne: "take ?n s \<noteq> []" using p le by auto
  have "jsonString (take ?n s) = take ?n (take ?n s) @ jsonString (drop ?n (take ?n s))"
    using ne w p by (subst jsonString.simps) simp
  then show ?thesis using le by (simp add: validUTF8_def jsonString_Nil)
qed



lemma runeWidth_e_acute: "runeWidth (CHR 0xC3 # CHR 0xA9 # s) = 2"
  by (simp add: runeWidth_def leadWidth_def tailOk_def secondLo_def secondHi_def cont_def)

lemma validUTF8_e_acute: "validUTF8 (concat (replicate n [CHR 0xC3, CHR 0xA9]))"
proof (induction n)
  case 0
  then show ?case by (simp add: validUTF8_Nil)
next
  case (Suc n)
  have "validUTF8 [CHR 0xC3, CHR 0xA9]"
    using validUTF8_rune[of "[CHR 0xC3, CHR 0xA9]"] runeWidth_e_acute[of "[]"] by simp
  then show ?case using Suc validUTF8_append[of "[CHR 0xC3, CHR 0xA9]"] by simp
qed

lemma jsonString_lone_lead: "jsonString [CHR 0xC3] = [CHR 0xEF, CHR 0xBF, CHR 0xBD]"
  by (subst jsonString.simps) (simp add: runeWidth_def leadWidth_def jsonString_Nil)


lemma length_pairs: "length (concat (replicate n [c, d])) = 2 * n"
  by (induction n) simp_all

lemma take_pairs_odd:
  "take (2 * k + 1) (concat (replicate (k + Suc m) [c, d])) = concat (replicate k [c, d]) @ [c]"
  by (induction k) simp_all

section \<open>Deduplication\<close>

lemma update_fresh: "k \<notin> fst ` set al \<Longrightarrow> AList.update k v al = al @ [(k, v)]"
  by (induction al) auto

lemma buildItemMap_distinct_aux:
  "distinct (map fst al @ map GUID items) \<Longrightarrow>
   foldl (\<lambda>m item. AList.update (GUID item) item m) al items = al @ map (\<lambda>it. (GUID it, it)) items"
proof (induction items arbitrary: al)
  case Nil
  then show ?case by simp
next
  case (Cons it items)
  have fresh: "GUID it \<notin> fst ` set al" using Cons.prems by auto
  have d: "distinct (map fst (al @ [(GUID it, it)]) @ map GUID items)" using Cons.prems by auto
  show ?case using Cons.IH[OF d] by (simp add: update_fresh[OF fresh])
qed

lemma buildItemMap_distinct:
  "distinct (map GUID items) \<Longrightarrow> buildItemMap items = map (\<lambda>it. (GUID it, it)) items"
  using buildItemMap_distinct_aux[of "[]" items] by (simp add: buildItemMap_def)

lemma dropExisting_filter:
  "dropExisting docs m = filter (\<lambda>kv. \<forall>s \<in> set docs. fst s = fst kv \<longrightarrow> snd s = None) m"
  unfolding dropExisting_def
proof (induction docs arbitrary: m)
  case Nil
  then show ?case by simp
next
  case (Cons d docs)
  have "foldl (\<lambda>m snap. if snd snap \<noteq> None then AList.delete (fst snap) m else m) m (d # docs)
        = filter (\<lambda>kv. \<forall>s \<in> set docs. fst s = fst kv \<longrightarrow> snd s = None)
            (if snd d \<noteq> None then AList.delete (fst d) m else m)"
    using Cons.IH by simp
  also have "\<dots> = filter (\<lambda>kv. \<forall>s \<in> set (d # docs). fst s = fst kv \<longrightarrow> snd s = None) m"
    by (auto simp: AList.delete_eq case_prod_beta intro!: filter_cong)
  finally show ?case .
qed

lemma mset_filter_split: "mset (filter P xs) + mset (filter (\<lambda>x. \<not> P x) xs) = mset xs"
  by (induction xs) auto

text \<open>Whatever the order of the visit, \<open>range\<close> yields every entry of the map once.\<close>

lemma mset_mapRange: "mset (mapRange order al) = mset al"
proof -
  define idx where "idx = remdups (filter (\<lambda>i. i < length al) order)"
  have d: "distinct idx" by (simp add: idx_def)
  have s: "set idx \<subseteq> set [0..<length al]" by (auto simp: idx_def)
  have "set idx = set (filter (\<lambda>i. i \<in> set idx) [0..<length al])" using s by auto
  moreover have "distinct (filter (\<lambda>i. i \<in> set idx) [0..<length al])" by simp
  ultimately have "mset idx = mset (filter (\<lambda>i. i \<in> set idx) [0..<length al])"
    using d set_eq_iff_mset_eq_distinct by blast
  then have "mset (idx @ filter (\<lambda>i. i \<notin> set idx) [0..<length al]) = mset [0..<length al]"
    using mset_filter_split[of "\<lambda>i. i \<in> set idx" "[0..<length al]"] by (simp only: mset_append)
  then have "image_mset (nth al) (mset (idx @ filter (\<lambda>i. i \<notin> set idx) [0..<length al]))
             = image_mset (nth al) (mset [0..<length al])"
    by (rule arg_cong)
  then have "mset (map (nth al) (idx @ filter (\<lambda>i. i \<notin> set idx) [0..<length al]))
             = mset (map (nth al) [0..<length al])"
    by (simp only: mset_map)
  then show ?thesis by (simp add: mapRange_def idx_def[symmetric] Let_def map_nth)
qed

lemma mapRange_Nil: "mapRange order [] = []"
  by (simp add: mapRange_def)

lemma mapRange_no_order: "mapRange [] al = al"
  by (simp add: mapRange_def map_nth)

lemma new_entries_distinct:
  assumes "distinct (map GUID items)"
  shows "map snd (dropExisting (map (\<lambda>i. (i, st i)) (map GUID items)) (buildItemMap items))
         = filter (\<lambda>item. st (GUID item) = None) items"
proof -
  let ?docs = "map (\<lambda>i. (i, st i)) (map GUID items)"
  let ?P = "\<lambda>kv. \<forall>s \<in> set ?docs. fst s = fst kv \<longrightarrow> snd s = None"
  have bm: "buildItemMap items = map (\<lambda>it. (GUID it, it)) items"
    by (rule buildItemMap_distinct[OF assms])
  have de: "dropExisting ?docs (buildItemMap items) = filter ?P (map (\<lambda>it. (GUID it, it)) items)"
    unfolding bm by (rule dropExisting_filter)
  have pe: "?P (GUID it, it) = (st (GUID it) = None)" if "it \<in> set items" for it
    using that by force
  have "map snd (filter ?P (map (\<lambda>it. (GUID it, it)) items))
        = map snd (map (\<lambda>it. (GUID it, it)) (filter (\<lambda>it. ?P (GUID it, it)) items))"
    by (simp only: filter_map o_def)
  also have "\<dots> = filter (\<lambda>it. ?P (GUID it, it)) items"
    by (simp only: map_map o_def snd_conv map_ident)
  also have "\<dots> = filter (\<lambda>it. st (GUID it) = None) items"
    by (rule filter_cong[OF refl]) (rule pe)
  finally show ?thesis unfolding de .
qed

lemma GetAll_ok: "getAllOk env ids \<Longrightarrow> GetAll env w ids = Some (map (\<lambda>i. (i, store w i)) ids)"
  by (simp add: GetAll_def)

text \<open>
  With pairwise distinct identifiers, a store client and an answer of the store,
  \<open>removeOldItems\<close> makes one batch read of all the identifiers and returns the entries
  without a record, each once.
\<close>

lemma removeOldItems_returns_new:
  assumes "firestoreClient env" and "getAllOk env (map GUID items)" and "distinct (map GUID items)"
  shows "\<exists>notFound. removeOldItems env w items = (Inr notFound, emit (BatchGet (map GUID items)) w)
           \<and> mset notFound = mset (filter (\<lambda>item. store w (GUID item) = None) items)"
proof -
  define kept where
    "kept = dropExisting (map (\<lambda>i. (i, store w i)) (map GUID items)) (buildItemMap items)"
  define notFound where "notFound = map snd (mapRange (rangeOrder env) kept)"
  have r: "removeOldItems env w items = (Inr notFound, emit (BatchGet (map GUID items)) w)"
    using assms(1) GetAll_ok[OF assms(2), of w]
    by (simp add: removeOldItems_def Let_def notFound_def kept_def)
  have "mset notFound = image_mset snd (mset (mapRange (rangeOrder env) kept))"
    by (simp only: notFound_def mset_map)
  also have "\<dots> = image_mset snd (mset kept)"
    by (simp only: mset_mapRange)
  also have "\<dots> = mset (map snd kept)"
    by (simp only: mset_map)
  also have "\<dots> = mset (filter (\<lambda>item. store w (GUID item) = None) items)"
    unfolding kept_def by (simp only: new_entries_distinct[OF assms(3)])
  finally have m: "mset notFound = mset (filter (\<lambda>item. store w (GUID item) = None) items)" .
  from r m show ?thesis by blast
qed

text \<open>
  C9: the batch existence check handles the empty input without error, and for the empty
  sequence of feed entries the deduplication, once it has its store client, returns the
  empty list of new entries and no error.
\<close>

theorem removeOldItems_empty:
  "GetAll env w [] = Some [] \<and>
   (firestoreClient env \<longrightarrow> removeOldItems env w [] = (Inr [], emit (BatchGet []) w))"
  by (simp add: removeOldItems_def GetAll_def buildItemMap_def dropExisting_def mapRange_Nil)

theorem removeOldItems_empty_witness:
  "firestoreClient okEnv \<and>
   removeOldItems okEnv emptyWorld [] = (Inr [], \<lparr>store = Map.empty, log = [BatchGet [] ]\<rparr>)"
  using removeOldItems_empty[of okEnv emptyWorld]
  by (simp add: okEnv_def emptyWorld_def emit_def)

section \<open>Fan-out\<close>

lemma publishLoop_acks:
  "publishLoop env u items i k w =
     (None, k + length (filter (\<lambda>a. \<not> snd a) (acks env u items i)),
      w\<lparr>log := log w @ map (\<lambda>a. Publish (fst a) (snd a)) (acks env u items i)\<rparr>)"
proof (induction items arbitrary: i k w)
  case Nil
  then show ?case by simp
next
  case (Cons item rest)
  show ?case
    by (simp add: Cons.IH marshal_FeedItem_ch_def itemJson_def emit_def Let_def)
qed

lemma length_acks: "length (acks env u items i) = length items"
  by (induction items arbitrary: i) auto

text \<open>
  \<open>publishItem\<close> itself publishes every entry, whatever the outcome of the others, and
  returns the count of the failed ones with the number of entries, or \<open>nil\<close> when none
  failed.
\<close>

lemma publishItem_aggregate:
  assumes "pubsubClient env"
  shows "publishItem env w u items =
           ((let k = length (filter (\<lambda>a. \<not> snd a) (acks env u items 0))
             in if k > 0 then Some (DidNotPublish k (length items)) else None),
            w\<lparr>log := log w @ map (\<lambda>a. Publish (fst a) (snd a)) (acks env u items 0)\<rparr>)"
  using assms by (simp add: publishItem_def publishLoop_acks Let_def)

text \<open>The errors \<open>processChannel\<close> can return: none of them is that of \<open>publishItem\<close>.\<close>

lemma processChannel_result:
  "fst (processChannel env w e) \<in>
     {None, Some EventDataAs, Some FailedParsingJSON, Some FailedParsingFeed,
      Some (FailedProcessingItems FirestoreClientError),
      Some (FailedProcessingItems FailedGettingItems)}"
  by (auto simp: processChannel_def removeOldItems_def Let_def
      split: event.splits option.splits sum.splits prod.splits if_splits)

text \<open>
  C1: a fan-out over \<open>n\<close> entries of which \<open>k\<close> fail should make the invocation return the
  error "\<open>k\<close> of \<open>n\<close>". The code does not: for a feed whose one new entry fails to publish,
  \<open>publishItem\<close> returns "1 of 1", and \<open>processChannel\<close>, which drops that result, returns
  \<open>nil\<close> after the failed publication.
\<close>

theorem processChannel_discards_aggregate_error:
  "fst (publishItem (okEnv\<lparr>publishOk := (\<lambda>i msg. False)\<rparr>) emptyWorld ''https://chat.example/hook'' [entry1])
     = Some (DidNotPublish 1 1) \<and>
   fst (processChannel (okEnv\<lparr>publishOk := (\<lambda>i msg. False)\<rparr>) emptyWorld channelEvent) = None \<and>
   log (snd (processChannel (okEnv\<lparr>publishOk := (\<lambda>i msg. False)\<rparr>) emptyWorld channelEvent))
     = [BatchGet [''guid-1''], Publish (itemJson ''https://chat.example/hook'' entry1) False]"
  by (simp add: processChannel_def channelEvent_def unmarshal_ChannelConfig_def member_def okEnv_def
      removeOldItems_def GetAll_def emptyWorld_def emit_def buildItemMap_def dropExisting_def
      mapRange_no_order publishItem_def marshal_FeedItem_ch_def itemJson_def entry1_def Let_def
      jsonString_ascii)

lemma published_feed_member_empty:
  "marshal_FeedItem_ch f = Inr obj \<Longrightarrow> map_option Feed (unmarshal_FeedItem (Object obj)) = Some []"
  by (auto simp: marshal_FeedItem_ch_def unmarshal_FeedItem_def member_def)

text \<open>
  C2: the dispatched item should carry the feed display name. The code does not: the
  message published for an entry has the members \<open>notify\<close>, \<open>id\<close>, \<open>updated\<close>, \<open>link\<close>,
  \<open>title\<close> and \<open>content\<close>, and the Item Processor, decoding it, finds no \<open>feed\<close> member and
  has the empty string as feed name.
\<close>

theorem dispatched_item_without_feed_name:
  "log (snd (publishItem okEnv emptyWorld ''https://chat.example/hook'' [entry1]))
     = [Publish [(''notify'', ''https://chat.example/hook''), (''id'', ''guid-1''),
                 (''updated'', ''2023-01-01''), (''link'', ''https://example.com/1''),
                 (''title'', ''Release notes''), (''content'', ''<p>New</p>'')] True] \<and>
   map_option Feed (unmarshal_FeedItem (Object
       [(''notify'', ''https://chat.example/hook''), (''id'', ''guid-1''),
        (''updated'', ''2023-01-01''), (''link'', ''https://example.com/1''),
        (''title'', ''Release notes''), (''content'', ''<p>New</p>'')])) = Some []"
  by (simp add: okEnv_def emptyWorld_def emit_def publishItem_def marshal_FeedItem_ch_def
      entry1_def Let_def unmarshal_FeedItem_def member_def jsonString_ascii)

lemma map_fst_acks: "map fst (acks env u items i) = map (itemJson u) items"
  by (induction items arbitrary: i) auto

lemma published_Publish: "published (map (\<lambda>a. Publish (fst a) (snd a)) as) = map fst as"
  by (induction as) (simp_all add: published_def)

text \<open>
  C4, as stated, fails on a feed in which two entries share an identifier: the map keeps
  one entry per identifier, the last one. Here both entries have the identifier
  \<open>guid-1\<close>, which the empty store does not hold, and only the second is dispatched.
\<close>

theorem processChannel_duplicate_guid_counterexample:
  "store emptyWorld (GUID entry1) = None \<and>
   log (snd (processChannel
               (okEnv\<lparr>parseURL := (\<lambda>url. Some [entry1, entry1\<lparr>item_Title := ''Second''\<rparr>])\<rparr>)
               emptyWorld channelEvent))
     = [BatchGet [''guid-1'', ''guid-1''],
        Publish (itemJson ''https://chat.example/hook'' (entry1\<lparr>item_Title := ''Second''\<rparr>)) True]"
  by (simp add: processChannel_def channelEvent_def unmarshal_ChannelConfig_def member_def okEnv_def
      removeOldItems_def GetAll_def emptyWorld_def emit_def buildItemMap_def dropExisting_def
      mapRange_no_order publishItem_def marshal_FeedItem_ch_def itemJson_def entry1_def Let_def
      jsonString_ascii)

text \<open>
  C4 (amended): for every finite sequence of feed entries with pairwise distinct
  identifiers and every store state, when the clients are created and the store answers,
  the Channel Processor collects all the identifiers, issues one batch existence check
  and dispatches exactly the entries whose identifier is absent from the record store,
  each once: what it adds to the log is that batch read and then the publications, whose
  messages are those of the absent entries.
\<close>

theorem processChannel_dispatches_new_entries:
  assumes "unmarshal_ChannelConfig p = Some cfg" and "parseURL env (cfg_FeedURL cfg) = Some items"
    and "firestoreClient env" and "getAllOk env (map GUID items)" and "pubsubClient env"
    and "distinct (map GUID items)"
  shows "\<exists>new. log (snd (processChannel env w (Data p))) = log w @ BatchGet (map GUID items) # new
           \<and> (\<forall>x \<in> set new. isPublish x)
           \<and> mset (published new)
               = image_mset (itemJson (cfg_NotifyURL cfg))
                   (mset (filter (\<lambda>item. store w (GUID item) = None) items))"
proof -
  obtain notFound where
    r: "removeOldItems env w items = (Inr notFound, emit (BatchGet (map GUID items)) w)" and
    m: "mset notFound = mset (filter (\<lambda>item. store w (GUID item) = None) items)"
    using removeOldItems_returns_new[OF assms(3,4,6), of w] by blast
  define new where
    "new = map (\<lambda>a. Publish (fst a) (snd a)) (acks env (cfg_NotifyURL cfg) notFound 0)"
  have pc: "snd (processChannel env w (Data p))
              = snd (publishItem env (emit (BatchGet (map GUID items)) w) (cfg_NotifyURL cfg) notFound)"
    using assms(1,2) r by (simp add: processChannel_def)
  have lg: "log (snd (processChannel env w (Data p))) = log w @ BatchGet (map GUID items) # new"
    unfolding pc publishItem_aggregate[OF assms(5)] new_def by (simp add: emit_def)
  have ip: "\<forall>x \<in> set new. isPublish x" by (simp add: new_def)
  have "published new = map (itemJson (cfg_NotifyURL cfg)) notFound"
    unfolding new_def by (simp only: published_Publish map_fst_acks)
  then have "mset (published new) = image_mset (itemJson (cfg_NotifyURL cfg)) (mset notFound)"
    by (simp only: mset_map)
  then have pm: "mset (published new)
               = image_mset (itemJson (cfg_NotifyURL cfg))
                   (mset (filter (\<lambda>item. store w (GUID item) = None) items))"
    by (simp only: m)
  from lg ip pm show ?thesis by blast
qed

text \<open>
  The example of the specification: entries A, B, C, of which the store holds A; B and C
  are dispatched.
\<close>

theorem processChannel_dispatches_new_entries_witness:
  "\<exists>new. log (snd (processChannel
               (okEnv\<lparr>parseURL := (\<lambda>url. Some [entry1\<lparr>GUID := ''A''\<rparr>, entry1\<lparr>GUID := ''B''\<rparr>,
                                                 entry1\<lparr>GUID := ''C''\<rparr>])\<rparr>)
               \<lparr>store = Map.empty(''A'' \<mapsto> Map.empty), log = []\<rparr> channelEvent))
            = BatchGet [''A'', ''B'', ''C''] # new \<and>
          mset (published new)
            = mset [itemJson ''https://chat.example/hook'' (entry1\<lparr>GUID := ''B''\<rparr>),
                    itemJson ''https://chat.example/hook'' (entry1\<lparr>GUID := ''C''\<rparr>)]"
proof -
  let ?env = "okEnv\<lparr>parseURL := (\<lambda>url. Some [entry1\<lparr>GUID := ''A''\<rparr>, entry1\<lparr>GUID := ''B''\<rparr>,
                                                 entry1\<lparr>GUID := ''C''\<rparr>])\<rparr>"
  let ?p = "Object [(''url'', ''https://example.com/feed''), (''notify'', ''https://chat.example/hook'')]"
  let ?cfg = "\<lparr>cfg_FeedURL = ''https://example.com/feed'', cfg_NotifyURL = ''https://chat.example/hook''\<rparr>"
  have u: "unmarshal_ChannelConfig ?p = Some ?cfg"
    by (simp add: unmarshal_ChannelConfig_def member_def jsonString_ascii)
  have f: "parseURL ?env (cfg_FeedURL ?cfg)
             = Some [entry1\<lparr>GUID := ''A''\<rparr>, entry1\<lparr>GUID := ''B''\<rparr>, entry1\<lparr>GUID := ''C''\<rparr>]"
    by simp
  have c: "firestoreClient ?env" and g: "getAllOk ?env ids" and ps: "pubsubClient ?env" for ids
    by (simp_all add: okEnv_def)
  have d: "distinct (map GUID [entry1\<lparr>GUID := ''A''\<rparr>, entry1\<lparr>GUID := ''B''\<rparr>, entry1\<lparr>GUID := ''C''\<rparr>])"
    by simp
  show ?thesis
    using processChannel_dispatches_new_entries[OF u f c g ps d,
        of "\<lparr>store = Map.empty(''A'' \<mapsto> Map.empty), log = []\<rparr>"]
    by (simp add: channelEvent_def) blast
qed

section \<open>Effects of the Channel Processor\<close>

lemma removeOldItems_frame:
  "removeOldItems env w items = (r, w') \<Longrightarrow>
     store w' = store w \<and> (log w' = log w \<or> log w' = log w @ [BatchGet (map GUID items)])"
  by (auto simp: removeOldItems_def emit_def Let_def split: if_splits option.splits)

lemma publishItem_frame:
  "\<exists>pubs. store (snd (publishItem env w u items)) = store w \<and>
     log (snd (publishItem env w u items)) = log w @ pubs \<and> (\<forall>x \<in> set pubs. isPublish x)"
proof (cases "pubsubClient env")
  case True
  have "\<forall>x \<in> set (map (\<lambda>a. Publish (fst a) (snd a)) (acks env u items 0)). isPublish x" by simp
  then show ?thesis using True by (simp add: publishItem_aggregate)
next
  case False
  then show ?thesis by (simp add: publishItem_def)
qed

text \<open>
  C8: an invocation of the Channel Processor leaves the store as it was; what it adds to
  the log is at most one batch read and publications, and no write of a record.
\<close>

theorem processChannel_never_writes:
  "\<exists>new. store (snd (processChannel env w e)) = store w \<and>
     log (snd (processChannel env w e)) = log w @ new \<and>
     (\<forall>x \<in> set new. \<not> isUpsert x \<and> (isBatchGet x \<or> isPublish x)) \<and>
     length (filter isBatchGet new) \<le> 1"
proof (cases e)
  case NoData
  then show ?thesis by (simp add: processChannel_def)
next
  case (Data p)
  show ?thesis
  proof (cases "unmarshal_ChannelConfig p")
    case None
    then show ?thesis using Data by (simp add: processChannel_def)
  next
    case cfgSome: (Some cfg)
    show ?thesis
    proof (cases "parseURL env (cfg_FeedURL cfg)")
      case None
      then show ?thesis using Data cfgSome by (simp add: processChannel_def)
    next
      case (Some feedItems)
      obtain r w1 where rm: "removeOldItems env w feedItems = (r, w1)"
        by (cases "removeOldItems env w feedItems")
      from removeOldItems_frame[OF rm] have st1: "store w1 = store w"
        and lg1: "log w1 = log w \<or> log w1 = log w @ [BatchGet (map GUID feedItems)]" by auto
      show ?thesis
      proof (cases r)
        case (Inl err)
        have "processChannel env w e = (Some (FailedProcessingItems err), w1)"
          using Data cfgSome Some rm Inl by (simp add: processChannel_def)
        then show ?thesis using st1 lg1 by auto
      next
        case (Inr items)
        have pc: "snd (processChannel env w e) = snd (publishItem env w1 (cfg_NotifyURL cfg) items)"
          using Data cfgSome Some rm Inr by (simp add: processChannel_def)
        obtain pubs where pb: "store (snd (publishItem env w1 (cfg_NotifyURL cfg) items)) = store w1"
          "log (snd (publishItem env w1 (cfg_NotifyURL cfg) items)) = log w1 @ pubs"
          "\<forall>x \<in> set pubs. isPublish x" using publishItem_frame by blast
        have np: "\<And>x. isPublish x \<Longrightarrow> \<not> isUpsert x \<and> \<not> isBatchGet x" by (case_tac x) auto
        have f0: "filter isBatchGet pubs = []" using pb(3) np by (auto simp: filter_empty_conv)
        from lg1 show ?thesis
        proof
          assume "log w1 = log w"
          then show ?thesis using pc pb st1 np f0 by (intro exI[of _ pubs]) auto
        next
          assume "log w1 = log w @ [BatchGet (map GUID feedItems)]"
          then show ?thesis using pc pb st1 np f0
            by (intro exI[of _ "BatchGet (map GUID feedItems) # pubs"]) auto
        qed
      qed
    qed
  qed
qed

theorem processChannel_never_writes_witness:
  "store (snd (processChannel okEnv emptyWorld channelEvent)) = Map.empty \<and>
   filter isUpsert (log (snd (processChannel okEnv emptyWorld channelEvent))) = [] \<and>
   log (snd (processChannel okEnv emptyWorld channelEvent))
     = [BatchGet [''guid-1''], Publish (itemJson ''https://chat.example/hook'' entry1) True]"
proof -
  obtain new where n: "store (snd (processChannel okEnv emptyWorld channelEvent)) = store emptyWorld"
    "log (snd (processChannel okEnv emptyWorld channelEvent)) = log emptyWorld @ new"
    "\<forall>x \<in> set new. \<not> isUpsert x \<and> (isBatchGet x \<or> isPublish x)"
    using processChannel_never_writes[of okEnv emptyWorld channelEvent] by blast
  have u: "filter isUpsert (log (snd (processChannel okEnv emptyWorld channelEvent))) = []"
    using n(2,3) by (simp add: emptyWorld_def filter_empty_conv)
  have l: "log (snd (processChannel okEnv emptyWorld channelEvent))
     = [BatchGet [''guid-1''], Publish (itemJson ''https://chat.example/hook'' entry1) True]"
    by (simp add: processChannel_def channelEvent_def unmarshal_ChannelConfig_def member_def okEnv_def
      removeOldItems_def GetAll_def emptyWorld_def emit_def buildItemMap_def dropExisting_def
      mapRange_no_order publishItem_def marshal_FeedItem_ch_def itemJson_def entry1_def Let_def
      jsonString_ascii)
  show ?thesis using n(1) u l by (simp add: emptyWorld_def)
qed

section \<open>Message text\<close>

lemma payload1_item1: "unmarshal_FeedItem payload1 = Some item1"
  by (simp add: unmarshal_FeedItem_def payload1_def item1_def member_def jsonString_ascii)

lemma convertNodes_Nil: "convertNodes lib rule [] = []"
  by (simp add: convertNodes_def)

lemma convertNodes_append:
  "convertNodes lib rule (xs @ ys) = convertNodes lib rule xs @ convertNodes lib rule ys"
  by (simp add: convertNodes_def)

lemma convertNodes_Cons:
  "convertNodes lib rule (x # xs) = convertNode lib rule x @ convertNodes lib rule xs"
  by (simp add: convertNodes_def)

lemma convertNode_anchor:
  "convertNode lib rule (Element ''a'' atts n children) =
     (case rule (convertNodes lib rule children) \<lparr>attrs = atts, node = n\<rparr> of
        (res, skip) \<Rightarrow> if skip then [] else Markdown res)"
  by (simp add: convertNodes_def)

lemma htmlToMarkdown_document:
  "document lib html = Some nodes \<Longrightarrow>
     htmlToMarkdown lib html = Some (convertNodes lib (anchorRule lib) nodes)"
  by (simp add: htmlToMarkdown_def ConvertString_def)

lemma htmlToMarkdown_plain: "htmlToMarkdown plainLib html = Some html"
  by (simp add: htmlToMarkdown_def ConvertString_def document_def plainLib_def sampleLib_def
      convertNodes_def)

lemma messageText_take: "messageText item body = take 4000 (headerText item @ body)"
  by (simp add: messageText_def Let_def)

text \<open>
  Once the content converts, \<open>notify\<close> makes exactly one POST, of the message text as the
  JSON encoder writes it.
\<close>

lemma notify_log:
  assumes "htmlToMarkdown (md env) (Content item) = Some body"
  shows "log (snd (notify env w item)) =
           log w @ [Post (NotifyURL item) [(''text'', jsonString (messageText item body))]
                      (httpPost env (NotifyURL item) [(''text'', jsonString (messageText item body))])]"
  using assms
  by (simp add: notify_def marshal_msg_def emit_def Let_def split: option.splits prod.splits)

lemma header_item1:
  "headerText (item1\<lparr>Content := c\<rparr>) = ''Blog <https://example.com/1|Release notes>'' @ [CHR 0x0A, CHR 0x0A]"
  by (simp add: headerText_def item1_def)

lemma utf8_chars_append: "utf8_chars (xs @ ys) = utf8_chars xs + utf8_chars ys"
  by (simp add: utf8_chars_def)

lemma utf8_chars_e_acute: "utf8_chars (concat (replicate n [CHR 0xC3, CHR 0xA9])) = n"
  by (induction n) (simp_all add: utf8_chars_def)

text \<open>
  C3: a message of 4000 characters or fewer should be sent unchanged, and a longer one cut
  to its first 4000 characters. The code counts bytes: for the content \<open>a\<close> followed by 2000
  letters \<open>e\<close> with acute accent (two bytes each) the message has 2045 characters and 4045
  bytes, the cut after 4000 bytes falls inside the 1978th of these letters, and what is
  posted is the header, \<open>a\<close>, 1977 of the letters and U+FFFD for the byte left over.
\<close>

theorem truncation_counts_bytes:
  "utf8_chars (headerText (item1\<lparr>Content := CHR ''a'' # concat (replicate 2000 [CHR 0xC3, CHR 0xA9])\<rparr>)
               @ CHR ''a'' # concat (replicate 2000 [CHR 0xC3, CHR 0xA9])) = 2045 \<and>
   htmlToMarkdown (md (hookEnv 200))
       (Content (item1\<lparr>Content := CHR ''a'' # concat (replicate 2000 [CHR 0xC3, CHR 0xA9])\<rparr>))
     = Some (CHR ''a'' # concat (replicate 2000 [CHR 0xC3, CHR 0xA9])) \<and>
   log (snd (notify (hookEnv 200) emptyWorld
               (item1\<lparr>Content := CHR ''a'' # concat (replicate 2000 [CHR 0xC3, CHR 0xA9])\<rparr>)))
     = [Post ''https://chat.example/hook''
          [(''text'', ''Blog <https://example.com/1|Release notes>'' @ [CHR 0x0A, CHR 0x0A] @ ''a''
                        @ concat (replicate 1977 [CHR 0xC3, CHR 0xA9]) @ [CHR 0xEF, CHR 0xBF, CHR 0xBD])]
          (Some (200, ''ok''))]"
proof -
  let ?body = "CHR ''a'' # concat (replicate 2000 [CHR 0xC3, CHR 0xA9])"
  let ?it = "item1\<lparr>Content := ?body\<rparr>"
  let ?pre = "''Blog <https://example.com/1|Release notes>'' @ [CHR 0x0A, CHR 0x0A] @ ''a''"
  have hd: "headerText ?it = ''Blog <https://example.com/1|Release notes>'' @ [CHR 0x0A, CHR 0x0A]"
    by (rule header_item1)
  define H where "H = ''Blog <https://example.com/1|Release notes>'' @ [CHR 0x0A, CHR 0x0A]"
  have h: "utf8_chars H = 44" by (simp add: H_def utf8_chars_def)
  have a: "utf8_chars [CHR ''a''] = 1" by (simp add: utf8_chars_def)
  have e: "headerText ?it @ ?body = H @ [CHR ''a''] @ concat (replicate 2000 [CHR 0xC3, CHR 0xA9])"
    unfolding hd H_def by simp
  have "utf8_chars (H @ [CHR ''a''] @ concat (replicate 2000 [CHR 0xC3, CHR 0xA9])) = 44 + (1 + 2000)"
    by (simp only: utf8_chars_append h a utf8_chars_e_acute)
  then have uc: "utf8_chars (headerText ?it @ ?body) = 2045" unfolding e by simp
  have cv: "htmlToMarkdown (md (hookEnv 200)) (Content ?it) = Some ?body"
    by (simp add: hookEnv_def htmlToMarkdown_plain)
  have tk: "take 3955 (concat (replicate 2000 [CHR 0xC3, CHR 0xA9]))
              = concat (replicate 1977 [CHR 0xC3, CHR 0xA9]) @ [CHR 0xC3]"
    using take_pairs_odd[of 1977 22 "CHR 0xC3" "CHR 0xA9"] by simp
  have "messageText ?it ?body = take 4000 (?pre @ concat (replicate 2000 [CHR 0xC3, CHR 0xA9]))"
    unfolding messageText_take hd by simp
  also have "\<dots> = ?pre @ take 3955 (concat (replicate 2000 [CHR 0xC3, CHR 0xA9]))"
    by simp
  finally have mt: "messageText ?it ?body
                      = (?pre @ concat (replicate 1977 [CHR 0xC3, CHR 0xA9])) @ [CHR 0xC3]"
    unfolding tk by simp
  have vp: "validUTF8 (?pre @ concat (replicate 1977 [CHR 0xC3, CHR 0xA9]))"
    by (rule validUTF8_append[OF validUTF8_ascii validUTF8_e_acute]) simp
  have js: "jsonString (messageText ?it ?body)
              = ?pre @ concat (replicate 1977 [CHR 0xC3, CHR 0xA9]) @ [CHR 0xEF, CHR 0xBF, CHR 0xBD]"
    unfolding mt jsonString_valid_append[OF vp] jsonString_lone_lead by simp
  have lg: "log (snd (notify (hookEnv 200) emptyWorld ?it))
     = [Post ''https://chat.example/hook''
          [(''text'', ?pre @ concat (replicate 1977 [CHR 0xC3, CHR 0xA9]) @ [CHR 0xEF, CHR 0xBF, CHR 0xBD])]
          (Some (200, ''ok''))]"
    unfolding notify_log[OF cv] js by (simp add: emptyWorld_def hookEnv_def item1_def)
  from uc cv lg show ?thesis by simp
qed

section \<open>Empty content\<close>








section \<open>Persistence after delivery\<close>

text \<open>
  C5: for every item, a record is written only after the webhook answered the POST with
  status 200. When the conversion fails, the POST does not get through or the answer has
  another status, the invocation returns the notification error, the store is as before
  and no upsert was made; and when an upsert was made, delivery had succeeded and the
  upsert, of the item's identifier, follows the delivered POST.
\<close>

theorem processItem_persists_only_after_200:
  assumes "unmarshal_FeedItem p = Some item"
  shows "(\<not> delivered200 env item \<longrightarrow>
            (\<exists>err. fst (processItem env w (Data p)) = Some (FailedSendingNotification err)) \<and>
            store (snd (processItem env w (Data p))) = store w \<and>
            filter isUpsert (log (snd (processItem env w (Data p)))) = filter isUpsert (log w)) \<and>
         (filter isUpsert (log (snd (processItem env w (Data p)))) \<noteq> filter isUpsert (log w) \<longrightarrow>
            delivered200 env item \<and>
            (\<exists>post. delivered post \<and>
               log (snd (processItem env w (Data p))) =
                 log w @ [post, Upsert (ID item) (recordFields item)]))"
proof (cases "htmlToMarkdown (md env) (Content item)")
  case None
  then show ?thesis using assms
    by (simp add: processItem_def notify_def delivered200_def)
next
  case (Some body)
  let ?json = "[(''text'', jsonString (messageText item body))]"
  show ?thesis
  proof (cases "httpPost env (NotifyURL item) ?json")
    case None
    then show ?thesis using assms Some
      by (simp add: processItem_def notify_def delivered200_def marshal_msg_def emit_def)
  next
    case resp: (Some sb)
    obtain st b where sb: "sb = (st, b)" by (cases sb)
    show ?thesis
    proof (cases "st = 200")
      case False
      then show ?thesis using assms Some resp sb
        by (simp add: processItem_def notify_def delivered200_def marshal_msg_def emit_def)
    next
      case True
      have n: "notify env w item = (None, emit (Post (NotifyURL item) ?json (Some (200, b))) w)"
        using Some resp sb True by (simp add: notify_def marshal_msg_def)
      have d: "delivered200 env item" using Some resp sb True by (simp add: delivered200_def)
      have dp: "delivered (Post (NotifyURL item) ?json (Some (200, b)))" by simp
      show ?thesis
      proof (cases "storeClient env \<and> setOk env (ID item) (recordFields item)")
        case False
        then show ?thesis using assms n d
          by (auto simp: processItem_def save_def emit_def)
      next
        case True
        have "log (snd (processItem env w (Data p))) =
                log w @ [Post (NotifyURL item) ?json (Some (200, b)), Upsert (ID item) (recordFields item)]"
          using assms n True by (simp add: processItem_def save_def emit_def)
        then show ?thesis using d dp by blast
      qed
    qed
  qed
qed

text \<open>An answer with status 500 leaves no record; an answer with status 200 is followed by one.\<close>

theorem processItem_persists_only_after_200_witness:
  "unmarshal_FeedItem payload1 = Some item1 \<and>
   \<not> delivered200 (hookEnv 500) item1 \<and>
   fst (processItem (hookEnv 500) emptyWorld (Data payload1))
     = Some (FailedSendingNotification (ResponseStatus 500 ''ok'')) \<and>
   store (snd (processItem (hookEnv 500) emptyWorld (Data payload1))) = Map.empty \<and>
   filter isUpsert (log (snd (processItem (hookEnv 500) emptyWorld (Data payload1)))) = [] \<and>
   filter isUpsert (log (snd (processItem (hookEnv 200) emptyWorld (Data payload1))))
     = [Upsert ''guid-1'' (recordFields item1)] \<and>
   delivered200 (hookEnv 200) item1"
proof -
  have cv: "htmlToMarkdown (md (hookEnv st)) (Content item1) = Some (Content item1)" for st
    by (simp add: hookEnv_def htmlToMarkdown_plain)
  have nd: "\<not> delivered200 (hookEnv 500) item1"
    by (simp add: delivered200_def cv) (simp add: hookEnv_def)
  have r: "fst (processItem (hookEnv 500) emptyWorld (Data payload1))
     = Some (FailedSendingNotification (ResponseStatus 500 ''ok''))"
    by (simp add: processItem_def payload1_item1 notify_def cv marshal_msg_def)
       (simp add: hookEnv_def)
  have u: "filter isUpsert (log (snd (processItem (hookEnv 200) emptyWorld (Data payload1))))
     = [Upsert ''guid-1'' (recordFields item1)]"
    by (simp add: processItem_def payload1_item1 notify_def cv marshal_msg_def)
       (simp add: hookEnv_def save_def emit_def emptyWorld_def item1_def)
  have ne: "filter isUpsert (log (snd (processItem (hookEnv 200) emptyWorld (Data payload1))))
     \<noteq> filter isUpsert (log emptyWorld)"
    unfolding u by (simp add: emptyWorld_def)
  have d: "delivered200 (hookEnv 200) item1"
    using processItem_persists_only_after_200[OF payload1_item1, of "hookEnv 200" emptyWorld] ne
    by blast
  show ?thesis
    using processItem_persists_only_after_200[OF payload1_item1, of "hookEnv 500" emptyWorld] nd r u d
    by (simp add: payload1_item1 emptyWorld_def)
qed

section \<open>The anchor rule in the transform\<close>

lemma TrimSpace_Nil: "TrimSpace [] = []"
  by (simp add: TrimSpace_def)

lemma TrimSpace_hash: "TrimSpace ''#'' = ''#''"
  by (simp add: TrimSpace_def spaceWidth_def spaceRunes_def)

lemma anchorRule_no_target:
  assumes "Attr selec ''href'' = None \<or> Attr selec ''href'' = Some [] \<or> Attr selec ''href'' = Some ''#''"
  shows "anchorRule lib content selec = (\<lparr>Header = [], Markdown = content, Footer = []\<rparr>, False)"
  using assms by (auto simp: anchorRule_def noResult_def TrimSpace_Nil TrimSpace_hash)

text \<open>
  C6: for every anchor element whose \<open>href\<close> attribute is missing, empty or exactly \<open>#\<close>, the
  transform emits the anchor's converted inner content unchanged, with no link syntax:
  that is what the anchor becomes wherever it stands, and the output for a body in which
  it stands is the output for what precedes it, its inner content, and the output for
  what follows it.
\<close>

theorem anchor_without_target_keeps_content:
  assumes "Attr \<lparr>attrs = atts, node = n\<rparr> ''href'' = None \<or>
           Attr \<lparr>attrs = atts, node = n\<rparr> ''href'' = Some [] \<or>
           Attr \<lparr>attrs = atts, node = n\<rparr> ''href'' = Some ''#''"
    and "document lib html = Some (pre @ Element ''a'' atts n children # post)"
  shows "convertNode lib (anchorRule lib) (Element ''a'' atts n children)
           = convertNodes lib (anchorRule lib) children \<and>
         htmlToMarkdown lib html
           = Some (convertNodes lib (anchorRule lib) pre
                   @ convertNodes lib (anchorRule lib) children
                   @ convertNodes lib (anchorRule lib) post)"
proof -
  have a: "convertNode lib (anchorRule lib) (Element ''a'' atts n children)
             = convertNodes lib (anchorRule lib) children"
    unfolding convertNode_anchor anchorRule_no_target[OF assms(1)] by simp
  show ?thesis
    unfolding htmlToMarkdown_document[OF assms(2)] convertNodes_append convertNodes_Cons a
    by simp
qed

text \<open>The example of the specification: \<open><a href="">click</a>\<close> converts to \<open>click\<close>.\<close>

theorem anchor_without_target_keeps_content_witness:
  "Attr \<lparr>attrs = [(''href'', [])], node = ()\<rparr> ''href'' = Some [] \<and>
   document (sampleLib clickSrc clickDoc) clickSrc
     = Some ([] @ Element ''a'' [(''href'', [])] () [Text ''click''] # []) \<and>
   htmlToMarkdown (sampleLib clickSrc clickDoc) clickSrc = Some ''click''"
proof -
  have a: "Attr \<lparr>attrs = [(''href'', [])], node = ()\<rparr> ''href'' = None \<or>
           Attr \<lparr>attrs = [(''href'', [])], node = ()\<rparr> ''href'' = Some [] \<or>
           Attr \<lparr>attrs = [(''href'', [])], node = ()\<rparr> ''href'' = Some ''#''"
    by (simp add: Attr_def)
  have d: "document (sampleLib clickSrc clickDoc) clickSrc
             = Some ([] @ Element ''a'' [(''href'', [])] () [Text ''click''] # [])"
    by (simp add: document_def sampleLib_def clickSrc_def clickDoc_def)
  have c: "convertNodes (sampleLib clickSrc clickDoc) rule [Text ''click''] = ''click''" for rule
    by (simp add: convertNodes_def sampleLib_def)
  show ?thesis
    using anchor_without_target_keeps_content[OF a d] d
    by (simp add: c convertNodes_Nil Attr_def)
qed




end
